theory Spec2Isabelle
  imports Main "HOL-Library.Multiset"
begin

section \<open>Values of the JavaScript runtime\<close>

text \<open>
  The page (\<^verbatim>\<open>src/web/src/app/page.tsx\<close>) reads inbound frames and API responses as
  untyped JavaScript values: the TypeScript types are erased at run time, so the model
  keeps the values as they are. Numbers are the integers the counts are.
\<close>

datatype jsval =
    JUndefined
  | JNull
  | JBool bool
  | JNum int
  | JStr string
  | JArr "jsval list"
  | JObj "(string \<times> jsval) list"

text \<open>Truthiness, as the operator \<^verbatim>\<open>||\<close> and \<^verbatim>\<open>if\<close> test it.\<close>

fun truthy :: "jsval \<Rightarrow> bool" where
  "truthy JUndefined = False"
| "truthy JNull = False"
| "truthy (JBool b) = b"
| "truthy (JNum n) = (n \<noteq> 0)"
| "truthy (JStr s) = (s \<noteq> [])"
| "truthy (JArr xs) = True"
| "truthy (JObj kvs) = True"

text \<open>\<^verbatim>\<open>a || b\<close>: the left operand when it is truthy, the right one otherwise.\<close>

definition js_or :: "jsval \<Rightarrow> jsval \<Rightarrow> jsval" where
  "js_or a b = (if truthy a then a else b)"

text \<open>
  Reading a property of a value that is neither \<^verbatim>\<open>null\<close> nor \<^verbatim>\<open>undefined\<close>. Only the
  names \<^verbatim>\<open>type\<close>, \<^verbatim>\<open>data\<close>, \<^verbatim>\<open>success\<close>, \<^verbatim>\<open>new_events\<close>, \<^verbatim>\<open>updated_events\<close>,
  \<^verbatim>\<open>deleted_events\<close> and \<^verbatim>\<open>errors\<close> are ever read, and no prototype has one of them, so a
  primitive or an array gives \<^verbatim>\<open>undefined\<close> and an object gives its own property. An
  object lists its own properties, each name once.
\<close>

fun lookup :: "jsval \<Rightarrow> string \<Rightarrow> jsval" where
  "lookup (JObj kvs) k = (case map_of kvs k of Some v \<Rightarrow> v | None \<Rightarrow> JUndefined)"
| "lookup v k = JUndefined"

datatype js_error = TypeError

text \<open>\<^verbatim>\<open>v.k\<close> throws a TypeError on \<^verbatim>\<open>null\<close> and \<^verbatim>\<open>undefined\<close>; \<^verbatim>\<open>v?.k\<close> gives
  \<^verbatim>\<open>undefined\<close> there.\<close>

fun member :: "jsval \<Rightarrow> string \<Rightarrow> js_error + jsval" where
  "member JUndefined k = Inl TypeError"
| "member JNull k = Inl TypeError"
| "member v k = Inr (lookup v k)"

fun opt_member :: "jsval \<Rightarrow> string \<Rightarrow> jsval" where
  "opt_member JUndefined k = JUndefined"
| "opt_member JNull k = JUndefined"
| "opt_member v k = lookup v k"

text \<open>What a \<^verbatim>\<open>catch\<close> clause receives: an \<^verbatim>\<open>Error\<close> with its message, or any other
  thrown value.\<close>

datatype thrown = ErrorObj string | NotAnError

text \<open>\<^verbatim>\<open>err instanceof Error ? err.message : dflt\<close>\<close>

fun message_or :: "thrown \<Rightarrow> string \<Rightarrow> string" where
  "message_or (ErrorObj m) dflt = m"
| "message_or NotAnError dflt = dflt"

section \<open>Data of the page\<close>

text \<open>The fields of an \<^verbatim>\<open>Event\<close> that the page and the event list read.\<close>

record event =
  id_event :: string
  title :: string
  start_time :: string

record sync_status =
  success :: jsval
  new_events :: jsval
  updated_events :: jsval
  deleted_events :: jsval
  errors :: jsval

datatype date_range = Day | Week | Month

text \<open>
  The requests of the API client (\<^verbatim>\<open>@/lib/api\<close>) that the modelled handlers issue.
  \<open>GetEventsForRange d\<close> is \<^verbatim>\<open>getEventsForRange(startOfDay, endOfDay)\<close> for the local
  calendar day of the instant \<open>d\<close>.
\<close>

datatype api_call =
    GetEventsForRange int
  | GetWeekEvents
  | GetMonthEvents
  | SyncCalendar
  | DeleteEvent string

text \<open>The answer of \<^verbatim>\<open>api.deleteEvent\<close>: \<^verbatim>\<open>{success, error?}\<close>.\<close>

record delete_response =
  response_success :: bool
  response_error :: "string option"

datatype ready_state = CONNECTING | OPEN | CLOSING | CLOSED

text \<open>
  The state of the component \<^verbatim>\<open>Home\<close>: its React state, the variables of the effect's
  closure (\<^verbatim>\<open>isConnecting\<close>, \<^verbatim>\<open>reconnectAttempts\<close>, \<^verbatim>\<open>reconnectTimeout\<close>), the ref
  \<^verbatim>\<open>wsRef\<close>, and what the browser holds for it: the sockets created so far with their
  \<^verbatim>\<open>readyState\<close> (a socket is named by its position), the reconnect timers set by
  \<^verbatim>\<open>setTimeout\<close> and not yet fired or cleared (handle and delay in milliseconds), the
  next timer handle, whether the heartbeat interval is set, the frames sent and the API
  requests issued. The command line and the event form are not modelled.
\<close>

record home_state =
  events :: "event list"
  loading :: bool
  syncing :: bool
  error :: "string option"
  syncStatus :: sync_status
  selectedDate :: int
  selectedDateRange :: date_range
  isConnecting :: bool
  reconnectAttempts :: nat
  reconnectTimeout :: "nat option"
  wsRef :: "nat option"
  socks :: "ready_state list"
  pending :: "(nat \<times> nat) list"
  nextTimerId :: nat
  heartbeatInterval :: bool
  sent :: "(nat \<times> jsval) list"
  calls :: "api_call list"

definition default_status :: sync_status where
  "default_status =
     \<lparr>success = JBool False, new_events = JNum 0, updated_events = JNum 0,
      deleted_events = JNum 0, errors = JArr []\<rparr>"

text \<open>The state of the first render; \<open>now\<close> is \<^verbatim>\<open>new Date()\<close>.\<close>

definition init_state :: "int \<Rightarrow> home_state" where
  "init_state now =
     \<lparr>events = [], loading = False, syncing = False, error = None,
      syncStatus = default_status, selectedDate = now, selectedDateRange = Week,
      isConnecting = False, reconnectAttempts = 0, reconnectTimeout = None,
      wsRef = None, socks = [], pending = [], nextTimerId = 0,
      heartbeatInterval = False, sent = [], calls = []\<rparr>"

section \<open>Fetching events\<close>

text \<open>
  \<^verbatim>\<open>fetchEvents\<close> is an async function: \<open>fetchEvents_begin\<close> is what it does up to its
  \<^verbatim>\<open>await\<close>, for the selection \<open>(range, date)\<close> of the closure that calls it, and
  \<open>fetchEvents_settle\<close> what it does when the request settles (\<open>Inl\<close>: the API call threw).
  It carries no tag of the request it belongs to. Its outer \<^verbatim>\<open>catch\<close> clause is not
  reached: nothing outside the inner \<^verbatim>\<open>try\<close> block throws.
\<close>

definition fetchEvents_request :: "date_range \<times> int \<Rightarrow> api_call" where
  "fetchEvents_request sel =
     (case fst sel of
        Day \<Rightarrow> GetEventsForRange (snd sel)
      | Week \<Rightarrow> GetWeekEvents
      | Month \<Rightarrow> GetMonthEvents)"

definition fetchEvents_begin :: "date_range \<times> int \<Rightarrow> home_state \<Rightarrow> home_state" where
  "fetchEvents_begin sel s =
     s\<lparr>loading := True, calls := calls s @ [fetchEvents_request sel]\<rparr>"

definition fetchEvents_settle :: "thrown + event list \<Rightarrow> home_state \<Rightarrow> home_state" where
  "fetchEvents_settle r s =
     (case r of
        Inr data \<Rightarrow> s\<lparr>events := data, loading := False\<rparr>
      | Inl apiError \<Rightarrow>
          s\<lparr>error := Some (message_or apiError ''Failed to fetch events from server''),
            events := [], loading := False\<rparr>)"

text \<open>\<^verbatim>\<open>onDateSelect={setSelectedDate}\<close>, followed by the effect on the selection, which
  calls \<^verbatim>\<open>fetchEvents\<close> of the new render.\<close>

definition onDateSelect :: "int \<Rightarrow> home_state \<Rightarrow> home_state" where
  "onDateSelect d s = fetchEvents_begin (selectedDateRange s, d) (s\<lparr>selectedDate := d\<rparr>)"

text \<open>\<^verbatim>\<open>handleDateRangeChange\<close> sets the range and defers \<^verbatim>\<open>fetchEvents\<close> with a timer of
  delay 0; the second component is the selection of the closure that the deferred call
  belongs to.\<close>

definition handleDateRangeChange ::
  "date_range \<Rightarrow> home_state \<Rightarrow> home_state \<times> (date_range \<times> int)" where
  "handleDateRangeChange range' s =
     (s\<lparr>selectedDateRange := range'\<rparr>, (selectedDateRange s, selectedDate s))"

section \<open>Manual sync\<close>

text \<open>The object literal that both \<^verbatim>\<open>handleSync\<close> and the \<^verbatim>\<open>sync_complete\<close> branch
  build from a payload \<open>p\<close>: \<^verbatim>\<open>p?.success || false\<close>, \<^verbatim>\<open>p?.new_events || 0\<close>, ...\<close>

definition defaulted_status :: "jsval \<Rightarrow> sync_status" where
  "defaulted_status p =
     \<lparr>success = js_or (opt_member p ''success'') (JBool False),
      new_events = js_or (opt_member p ''new_events'') (JNum 0),
      updated_events = js_or (opt_member p ''updated_events'') (JNum 0),
      deleted_events = js_or (opt_member p ''deleted_events'') (JNum 0),
      errors = js_or (opt_member p ''errors'') (JArr [])\<rparr>"

definition handleSync_begin :: "home_state \<Rightarrow> home_state" where
  "handleSync_begin s = s\<lparr>syncing := True, error := None, calls := calls s @ [SyncCalendar]\<rparr>"

definition handleSync_settle :: "thrown + jsval \<Rightarrow> home_state \<Rightarrow> home_state" where
  "handleSync_settle r s =
     (case r of
        Inr data \<Rightarrow> s\<lparr>syncStatus := defaulted_status data\<rparr>
      | Inl err \<Rightarrow>
          s\<lparr>error := Some (message_or err ''Sync failed''),
            syncStatus :=
              \<lparr>success = JBool False, new_events = JNum 0, updated_events = JNum 0,
               deleted_events = JNum 0,
               errors = JArr [JStr (''Sync failed: '' @ message_or err ''Unknown error'')]\<rparr>,
            syncing := False\<rparr>)"

section \<open>Deleting an event\<close>

text \<open>
  \<^verbatim>\<open>handleDeleteEvent\<close> is an async function: \<open>handleDeleteEvent_begin\<close> is what it does
  up to its \<^verbatim>\<open>await\<close>, \<open>handleDeleteEvent_settle\<close> what it does when the request settles,
  in the state of that moment. \<open>captured\<close> is the list \<^verbatim>\<open>events\<close> of the render whose
  handler was called: the continuation filters that list, not the cache of the moment.
\<close>

definition handleDeleteEvent_begin :: "string \<Rightarrow> home_state \<Rightarrow> home_state" where
  "handleDeleteEvent_begin eventId s =
     s\<lparr>loading := True, calls := calls s @ [DeleteEvent eventId]\<rparr>"

definition handleDeleteEvent_settle ::
  "event list \<Rightarrow> string \<Rightarrow> thrown + delete_response \<Rightarrow> home_state \<Rightarrow> home_state" where
  "handleDeleteEvent_settle captured eventId r s =
     (case r of
        Inr response \<Rightarrow>
          (if response_success response
           then s\<lparr>events := filter (\<lambda>e. id_event e \<noteq> eventId) captured, error := None\<rparr>
           else s\<lparr>error := Some (case response_error response of
                                   Some m \<Rightarrow> if m \<noteq> [] then m else ''Failed to delete event''
                                 | None \<Rightarrow> ''Failed to delete event'')\<rparr>)
      | Inl err \<Rightarrow> s\<lparr>error := Some (message_or err ''Failed to delete event'')\<rparr>)
     \<lparr>loading := False\<rparr>"

section \<open>The reconnecting socket\<close>

definition maxReconnectAttempts :: nat where
  "maxReconnectAttempts = 5"

text \<open>
  The block that \<^verbatim>\<open>onclose\<close> and both \<^verbatim>\<open>catch\<close> clauses of \<^verbatim>\<open>connectWebSocket\<close> run
  when attempts remain: \<^verbatim>\<open>reconnectAttempts++\<close>, then the delay from the counter, then
  \<^verbatim>\<open>reconnectTimeout = setTimeout(..., delay)\<close>.
\<close>

definition planReconnect :: "home_state \<Rightarrow> home_state" where
  "planReconnect s =
     (let n = Suc (reconnectAttempts s);
          delay = min (1000 * 2 ^ n) 10000;
          t = nextTimerId s
      in s\<lparr>reconnectAttempts := n, reconnectTimeout := Some t,
            pending := pending s @ [(t, delay)], nextTimerId := Suc t\<rparr>)"

text \<open>\<^verbatim>\<open>WebSocket.close()\<close>: a socket that is connecting or open starts closing; its close
  event comes later.\<close>

definition ws_close :: "nat \<Rightarrow> ready_state list \<Rightarrow> ready_state list" where
  "ws_close w ss =
     (if w < length ss \<and> (ss ! w = CONNECTING \<or> ss ! w = OPEN) then ss[w := CLOSING] else ss)"

text \<open>Whether \<^verbatim>\<open>new WebSocket(url)\<close> returns a socket or throws into the inner \<^verbatim>\<open>catch\<close>
  clause. The outer clause of \<^verbatim>\<open>connectWebSocket\<close> would run the same block; no other
  statement of its \<^verbatim>\<open>try\<close> block throws.\<close>

datatype ws_ctor = Ctor_returns | Ctor_throws

definition connectWebSocket :: "ws_ctor \<Rightarrow> home_state \<Rightarrow> home_state" where
  "connectWebSocket outcome s =
     (if isConnecting s \<or> reconnectAttempts s \<ge> maxReconnectAttempts then s
      else
        let s1 = s\<lparr>isConnecting := True\<rparr>;
            s2 = (case wsRef s1 of
                    None \<Rightarrow> s1
                  | Some w \<Rightarrow> s1\<lparr>socks := ws_close w (socks s1), wsRef := None\<rparr>)
        in case outcome of
             Ctor_returns \<Rightarrow>
               s2\<lparr>socks := socks s2 @ [CONNECTING], wsRef := Some (length (socks s2))\<rparr>
           | Ctor_throws \<Rightarrow>
               (let s3 = s2\<lparr>isConnecting := False\<rparr>
                in if reconnectAttempts s3 < maxReconnectAttempts then planReconnect s3 else s3))"

definition ping :: jsval where
  "ping = JObj [(''type'', JStr ''ping'')]"

text \<open>The handlers of the socket \<open>k\<close>. The browser has set its \<^verbatim>\<open>readyState\<close> before it
  calls them.\<close>

definition ws_onopen :: "nat \<Rightarrow> home_state \<Rightarrow> home_state" where
  "ws_onopen k s =
     (let s1 = s\<lparr>isConnecting := False, reconnectAttempts := 0\<rparr>
      in if k < length (socks s1) \<and> socks s1 ! k = OPEN
         then s1\<lparr>sent := sent s1 @ [(k, ping)]\<rparr> else s1)"

definition ws_onclose :: "home_state \<Rightarrow> home_state" where
  "ws_onclose s =
     (let s1 = s\<lparr>isConnecting := False, wsRef := None\<rparr>
      in if reconnectAttempts s1 < maxReconnectAttempts then planReconnect s1 else s1)"

definition ws_onerror :: "home_state \<Rightarrow> home_state" where
  "ws_onerror s = s\<lparr>isConnecting := False\<rparr>"

text \<open>
  \<^verbatim>\<open>ws.onmessage\<close>: \<open>parsed\<close> is the result of \<^verbatim>\<open>JSON.parse(event.data)\<close>, \<open>None\<close> when
  it throws; \<open>sel\<close> is the selection of the closure whose \<^verbatim>\<open>fetchEvents\<close> the handler
  calls. Every exception is caught and logged.
\<close>

definition ws_onmessage ::
  "date_range \<times> int \<Rightarrow> jsval option \<Rightarrow> home_state \<Rightarrow> home_state" where
  "ws_onmessage sel parsed s =
     (case parsed of
        None \<Rightarrow> s
      | Some data \<Rightarrow>
          (case member data ''type'' of
             Inl e \<Rightarrow> s
           | Inr ty \<Rightarrow>
               if ty = JStr ''connection_established'' then s
               else if ty = JStr ''sync_complete'' then
                 fetchEvents_begin sel
                   (s\<lparr>syncStatus := defaulted_status (opt_member data ''data''),
                      syncing := False\<rparr>)
               else if ty = JStr ''pong'' then s
               else s))"

text \<open>The heartbeat, every 30 seconds.\<close>

definition heartbeat :: "home_state \<Rightarrow> home_state" where
  "heartbeat s =
     (case wsRef s of
        None \<Rightarrow> s
      | Some w \<Rightarrow>
          if w < length (socks s) \<and> socks s ! w = OPEN
          then s\<lparr>sent := sent s @ [(w, ping)]\<rparr> else s)"

text \<open>The effects of the first render: the socket, the heartbeat and two calls of
  \<^verbatim>\<open>fetchEvents\<close> (one by each effect).\<close>

definition mount :: "ws_ctor \<Rightarrow> int \<Rightarrow> home_state" where
  "mount outcome now =
     fetchEvents_begin (Week, now)
       (fetchEvents_begin (Week, now)
          ((connectWebSocket outcome (init_state now))\<lparr>heartbeatInterval := True\<rparr>))"

text \<open>The cleanup of the effect: it clears the timer whose handle \<^verbatim>\<open>reconnectTimeout\<close>
  holds, clears the interval and closes the socket of \<^verbatim>\<open>wsRef\<close>.\<close>

definition cleanup :: "home_state \<Rightarrow> home_state" where
  "cleanup s =
     (let s1 = s\<lparr>pending := filter (\<lambda>p. Some (fst p) \<noteq> reconnectTimeout s) (pending s),
                  heartbeatInterval := False\<rparr>
      in case wsRef s1 of
           None \<Rightarrow> s1
         | Some w \<Rightarrow> s1\<lparr>socks := ws_close w (socks s1), wsRef := None\<rparr>)"

section \<open>Runs of the socket manager\<close>

text \<open>
  What the browser can deliver to the closure: a socket that is connecting opens; a
  socket that is not closed reports an error, or closes; an open (or closing) socket
  delivers a frame; a pending timer fires and is gone; the interval ticks; the component
  unmounts. \<open>fire\<close> gives \<open>None\<close> for an event that the browser cannot deliver in the
  state.
\<close>

datatype browser_event =
    Opened nat
  | Errored nat
  | Closed nat
  | Message nat "jsval option"
  | TimerFired nat ws_ctor
  | HeartbeatTick
  | Unmounted

fun fire :: "date_range \<times> int \<Rightarrow> browser_event \<Rightarrow> home_state \<Rightarrow> home_state option" where
  "fire sel (Opened k) s =
     (if k < length (socks s) \<and> socks s ! k = CONNECTING
      then Some (ws_onopen k (s\<lparr>socks := (socks s)[k := OPEN]\<rparr>)) else None)"
| "fire sel (Errored k) s =
     (if k < length (socks s) \<and> socks s ! k \<noteq> CLOSED then Some (ws_onerror s) else None)"
| "fire sel (Closed k) s =
     (if k < length (socks s) \<and> socks s ! k \<noteq> CLOSED
      then Some (ws_onclose (s\<lparr>socks := (socks s)[k := CLOSED]\<rparr>)) else None)"
| "fire sel (Message k parsed) s =
     (if k < length (socks s) \<and> (socks s ! k = OPEN \<or> socks s ! k = CLOSING)
      then Some (ws_onmessage sel parsed s) else None)"
| "fire sel (TimerFired t outcome) s =
     (if t \<in> fst ` set (pending s)
      then Some (connectWebSocket outcome (s\<lparr>pending := filter (\<lambda>p. fst p \<noteq> t) (pending s)\<rparr>))
      else None)"
| "fire sel HeartbeatTick s = (if heartbeatInterval s then Some (heartbeat s) else None)"
| "fire sel Unmounted s = Some (cleanup s)"

fun run :: "date_range \<times> int \<Rightarrow> browser_event list \<Rightarrow> home_state \<Rightarrow> home_state option" where
  "run sel [] s = Some s"
| "run sel (e # es) s = (case fire sel e s of None \<Rightarrow> None | Some s' \<Rightarrow> run sel es s')"

text \<open>The sockets that have not closed yet.\<close>

definition openCount :: "ready_state list \<Rightarrow> nat" where
  "openCount ss = length (filter (\<lambda>r. r \<noteq> CLOSED) ss)"

definition live :: "home_state \<Rightarrow> nat" where
  "live s = openCount (socks s)"

section \<open>The event list\<close>

text \<open>
  \<^verbatim>\<open>src/web/src/components/EventList.tsx\<close>. The clock and calendar of the runtime and of
  \<^verbatim>\<open>date-fns\<close> are parameters: \<open>Date_parse\<close> is the time value of \<^verbatim>\<open>new Date(string)\<close>
  (\<open>None\<close> for an invalid date), the others take and give time values in milliseconds.
\<close>

record calendar =
  Date_parse :: "string \<Rightarrow> int option"
  getFullYear :: "int \<Rightarrow> int"
  getMonth :: "int \<Rightarrow> int"
  getDate :: "int \<Rightarrow> int"
  startOfWeek :: "int \<Rightarrow> int"
  endOfWeek :: "int \<Rightarrow> int"
  startOfMonth :: "int \<Rightarrow> int"
  endOfMonth :: "int \<Rightarrow> int"

definition isWithinInterval :: "int \<Rightarrow> int \<Rightarrow> int \<Rightarrow> bool" where
  "isWithinInterval t istart iend = (istart \<le> t \<and> t \<le> iend)"

text \<open>The callback of \<^verbatim>\<open>events.filter\<close>; every comparison with the fields of an invalid
  date is false.\<close>

definition inSelectedRange :: "calendar \<Rightarrow> int \<Rightarrow> date_range \<Rightarrow> event \<Rightarrow> bool" where
  "inSelectedRange cal date dateRange ev =
     (case Date_parse cal (start_time ev) of
        None \<Rightarrow> False
      | Some eventDate \<Rightarrow>
          (case dateRange of
             Day \<Rightarrow>
               getFullYear cal eventDate = getFullYear cal date \<and>
               getMonth cal eventDate = getMonth cal date \<and>
               getDate cal eventDate = getDate cal date
           | Week \<Rightarrow> isWithinInterval eventDate (startOfWeek cal date) (endOfWeek cal date)
           | Month \<Rightarrow> isWithinInterval eventDate (startOfMonth cal date) (endOfMonth cal date)))"

text \<open>\<^verbatim>\<open>new Date(a.start_time).getTime()\<close>, the key of the comparison function.\<close>

definition getTime :: "calendar \<Rightarrow> event \<Rightarrow> int" where
  "getTime cal ev = (case Date_parse cal (start_time ev) of Some t \<Rightarrow> t | None \<Rightarrow> 0)"

text \<open>\<^verbatim>\<open>filteredEvents\<close>, the list that the component renders, one item per element in
  this order. \<^verbatim>\<open>Array.prototype.sort\<close> is stable, as \<open>sort_key\<close> is.\<close>

definition filteredEvents :: "calendar \<Rightarrow> event list \<Rightarrow> int \<Rightarrow> date_range \<Rightarrow> event list" where
  "filteredEvents cal evs date dateRange =
     sort_key (getTime cal) (filter (inSelectedRange cal date dateRange) evs)"

text \<open>The property the runs of the manager keep: a socket that has not closed and a
  pending timer never coexist, and there is at most one of either; the counter stays
  within the budget, and once the budget is used up no socket is left.\<close>

definition manager_inv :: "home_state \<Rightarrow> bool" where
  "manager_inv s \<longleftrightarrow>
     live s + length (pending s) \<le> 1 \<and>
     reconnectAttempts s \<le> maxReconnectAttempts \<and>
     (reconnectAttempts s = maxReconnectAttempts \<longrightarrow> live s = 0 \<and> wsRef s = None)"

text \<open>The selected range in words: the calendar day of the selected date, the week
  around it, the calendar month around it.\<close>

definition falls_within :: "calendar \<Rightarrow> int \<Rightarrow> date_range \<Rightarrow> int \<Rightarrow> bool" where
  "falls_within cal date dateRange t =
     (case dateRange of
        Day \<Rightarrow> (getFullYear cal t, getMonth cal t, getDate cal t)
                = (getFullYear cal date, getMonth cal date, getDate cal date)
      | Week \<Rightarrow> startOfWeek cal date \<le> t \<and> t \<le> endOfWeek cal date
      | Month \<Rightarrow> startOfMonth cal date \<le> t \<and> t \<le> endOfMonth cal date)"

section \<open>The earlier copy of the page\<close>

text \<open>
  \<^verbatim>\<open>src/unnamed/part_001\<close> is an earlier copy of the page. Its socket manager behaves
  the same; two of its functions differ from the page above. On \<^verbatim>\<open>sync_complete\<close> it calls
  \<^verbatim>\<open>setSyncStatus(data.stats)\<close>: \<open>earlier_sync_complete_status\<close> is the value it stores. Its
  \<^verbatim>\<open>fetchEvents\<close> always asks for the week; when the request settles it stores the events
  and clears the error, or stores the error alone.
\<close>

definition earlier_sync_complete_status :: "jsval \<Rightarrow> js_error + jsval" where
  "earlier_sync_complete_status data = member data ''stats''"

definition earlier_fetchEvents_settle :: "thrown + event list \<Rightarrow> home_state \<Rightarrow> home_state" where
  "earlier_fetchEvents_settle r s =
     (case r of
        Inr data \<Rightarrow> s\<lparr>events := data, error := None\<rparr>
      | Inl err \<Rightarrow> s\<lparr>error := Some (message_or err ''Failed to fetch events'')\<rparr>)"

section \<open>Sample inputs\<close>

definition monday_event :: event where
  "monday_event =
     \<lparr>id_event = ''a1'', title = ''Standup'', start_time = ''1970-01-05T09:00:00Z''\<rparr>"

definition wednesday_event :: event where
  "wednesday_event =
     \<lparr>id_event = ''b2'', title = ''Review'', start_time = ''1970-01-07T15:30:00Z''\<rparr>"

definition later_event :: event where
  "later_event =
     \<lparr>id_event = ''c3'', title = ''Retro'', start_time = ''1970-01-20T08:00:00Z''\<rparr>"

definition undated_event :: event where
  "undated_event = \<lparr>id_event = ''d4'', title = ''Someday'', start_time = ''soon''\<rparr>"

text \<open>The calendar of January 1970 in UTC, weeks starting on Sunday, with the time values
  of the sample events.\<close>

definition january_1970_utc :: calendar where
  "january_1970_utc =
     \<lparr>Date_parse = map_of
        [(''1970-01-05T09:00:00Z'', 378000000),
         (''1970-01-07T15:30:00Z'', 574200000),
         (''1970-01-20T08:00:00Z'', 1670400000)],
      getFullYear = (\<lambda>t. 1970),
      getMonth = (\<lambda>t. 0),
      getDate = (\<lambda>t. t div 86400000 + 1),
      startOfWeek = (\<lambda>t. (t div 86400000 - (t div 86400000 + 4) mod 7) * 86400000),
      endOfWeek = (\<lambda>t. (t div 86400000 - (t div 86400000 + 4) mod 7) * 86400000 + 604799999),
      startOfMonth = (\<lambda>t. 0),
      endOfMonth = (\<lambda>t. 2678399999)\<rparr>"

text \<open>A frame of a type the handler does not know, and an empty \<^verbatim>\<open>sync_complete\<close>.\<close>

definition event_created_frame :: jsval where
  "event_created_frame =
     JObj [(''type'', JStr ''event_created''), (''data'', JObj [(''new_events'', JNum 2)])]"

definition empty_sync_complete :: jsval where
  "empty_sync_complete = JObj [(''type'', JStr ''sync_complete''), (''data'', JObj [])]"

text \<open>A render that shows two cached events, and the answer of a deletion that went well.\<close>

definition two_events_state :: home_state where
  "two_events_state = (init_state 0)\<lparr>events := [monday_event, wednesday_event]\<rparr>"

definition deleted_ok :: delete_response where
  "deleted_ok = \<lparr>response_success = True, response_error = None\<rparr>"

text \<open>Events that use the budget up after a mount whose socket was created: the socket
  closes, three reconnects fail in the constructor, the fourth gets a socket, which
  closes.\<close>

definition exhausting_events :: "browser_event list" where
  "exhausting_events =
     [Closed 0, TimerFired 0 Ctor_throws, TimerFired 1 Ctor_throws, TimerFired 2 Ctor_throws,
      TimerFired 3 Ctor_returns, Closed 1]"

text \<open>The socket of the mount closes, the reconnect gets a new socket.\<close>

definition reconnecting_events :: "browser_event list" where
  "reconnecting_events = [Errored 0, Closed 0, TimerFired 0 Ctor_returns]"

section \<open>Auxiliary facts\<close>

lemma js_or_defined:
  "b \<noteq> JUndefined \<Longrightarrow> b \<noteq> JNull \<Longrightarrow> js_or a b \<noteq> JUndefined \<and> js_or a b \<noteq> JNull"
  by (cases a) (auto simp: js_or_def)

lemma list_update_Cons_numeral:
  "(x # xs)[numeral v := y] = x # xs[numeral v - 1 := y]"
  by (simp add: numeral_eq_Suc)

lemmas eval_defs =
  mount_def connectWebSocket_def init_state_def ws_onclose_def ws_onopen_def ws_onerror_def
  planReconnect_def maxReconnectAttempts_def fetchEvents_begin_def fetchEvents_request_def
  ws_close_def Let_def default_status_def heartbeat_def cleanup_def list_update_Cons_numeral

lemma run_append:
  "run sel (es @ fs) s = (case run sel es s of None \<Rightarrow> None | Some s' \<Rightarrow> run sel fs s')"
  by (induction es arbitrary: s) (auto split: option.splits)

lemma openCount_simps [simp]:
  "openCount [] = 0"
  "openCount (r # ss) = (if r = CLOSED then openCount ss else Suc (openCount ss))"
  "openCount (ss @ ts) = openCount ss + openCount ts"
  by (simp_all add: openCount_def)

lemma openCount_close:
  "k < length ss \<Longrightarrow> ss ! k \<noteq> CLOSED \<Longrightarrow> Suc (openCount (ss[k := CLOSED])) = openCount ss"
proof (induction ss arbitrary: k)
  case Nil
  then show ?case by simp
next
  case (Cons a ss)
  then show ?case by (cases k) auto
qed

lemma openCount_keep:
  "k < length ss \<Longrightarrow> ss ! k \<noteq> CLOSED \<Longrightarrow> r \<noteq> CLOSED \<Longrightarrow>
   openCount (ss[k := r]) = openCount ss"
proof (induction ss arbitrary: k)
  case Nil
  then show ?case by simp
next
  case (Cons a ss)
  then show ?case by (cases k) auto
qed

lemma openCount_ws_close: "openCount (ws_close w ss) = openCount ss"
  by (auto simp: ws_close_def openCount_keep)

lemma timer_removed:
  "t \<in> fst ` set ps \<Longrightarrow> length (filter (\<lambda>p. fst p \<noteq> t) ps) < length ps"
proof (induction ps)
  case Nil
  then show ?case by simp
next
  case (Cons p ps)
  have le: "length (filter (\<lambda>p. fst p \<noteq> t) ps) \<le> length ps" by simp
  show ?case
  proof (cases "fst p = t")
    case True
    with le show ?thesis by (simp add: less_Suc_eq_le)
  next
    case False
    with Cons show ?thesis by auto
  qed
qed

subsection \<open>The manager's invariant\<close>

lemma inv_planReconnect:
  "live s = 0 \<Longrightarrow> pending s = [] \<Longrightarrow> wsRef s = None \<Longrightarrow>
   reconnectAttempts s < maxReconnectAttempts \<Longrightarrow> manager_inv (planReconnect s)"
  by (simp add: manager_inv_def planReconnect_def Let_def live_def)

lemma inv_connectWebSocket:
  assumes "live s = 0" "pending s = []" "reconnectAttempts s \<le> maxReconnectAttempts"
    and "reconnectAttempts s = maxReconnectAttempts \<longrightarrow> wsRef s = None"
  shows "manager_inv (connectWebSocket outcome s)"
proof (cases "isConnecting s \<or> reconnectAttempts s \<ge> maxReconnectAttempts")
  case True
  then show ?thesis using assms by (simp add: connectWebSocket_def manager_inv_def)
next
  case False
  then have lt: "reconnectAttempts s < maxReconnectAttempts" by simp
  show ?thesis
  proof (cases outcome)
    case Ctor_returns
    then show ?thesis using False assms lt
      by (auto simp: connectWebSocket_def manager_inv_def live_def openCount_ws_close Let_def
          split: option.splits)
  next
    case Ctor_throws
    have "manager_inv (planReconnect (t\<lparr>isConnecting := False\<rparr>))"
      if "live t = 0" "pending t = []" "wsRef t = None"
        "reconnectAttempts t < maxReconnectAttempts" for t
      using that by (intro inv_planReconnect) (simp_all add: live_def)
    then show ?thesis using Ctor_throws False assms lt
      by (auto simp: connectWebSocket_def live_def openCount_ws_close Let_def
          split: option.splits)
  qed
qed

lemma inv_fire:
  assumes "manager_inv s" "fire sel e s = Some s'"
  shows "manager_inv s'"
proof (cases e)
  case (Opened k)
  then show ?thesis using assms
    by (auto simp: manager_inv_def ws_onopen_def live_def Let_def openCount_keep
        maxReconnectAttempts_def split: if_splits)
next
  case (Errored k)
  then show ?thesis using assms
    by (auto simp: manager_inv_def ws_onerror_def live_def split: if_splits)
next
  case (Closed k)
  with assms have k: "k < length (socks s)" "socks s ! k \<noteq> CLOSED"
    and s': "s' = ws_onclose (s\<lparr>socks := (socks s)[k := CLOSED]\<rparr>)"
    by (auto split: if_splits)
  from openCount_close[OF k] assms(1)
  have "openCount ((socks s)[k := CLOSED]) = 0 \<and> length (pending s) = 0"
    unfolding manager_inv_def live_def by linarith
  then have l: "live (s\<lparr>socks := (socks s)[k := CLOSED]\<rparr>) = 0" and p: "pending s = []"
    by (simp_all add: live_def)
  show ?thesis
  proof (cases "reconnectAttempts s < maxReconnectAttempts")
    case True
    have "manager_inv (planReconnect
            (s\<lparr>socks := (socks s)[k := CLOSED], isConnecting := False, wsRef := None\<rparr>))"
      using l p True by (intro inv_planReconnect) (simp_all add: live_def)
    then show ?thesis using True by (simp add: s' ws_onclose_def Let_def)
  next
    case False
    then show ?thesis using l p assms(1)
      by (simp add: s' ws_onclose_def Let_def manager_inv_def live_def)
  qed
next
  case (Message k parsed)
  with assms have "s' = ws_onmessage sel parsed s" by (auto split: if_splits)
  then show ?thesis using assms(1)
    by (auto simp: ws_onmessage_def manager_inv_def live_def fetchEvents_begin_def
        split: option.splits sum.splits)
next
  case (TimerFired t outcome)
  with assms have t: "t \<in> fst ` set (pending s)"
    and s': "s' = connectWebSocket outcome (s\<lparr>pending := filter (\<lambda>p. fst p \<noteq> t) (pending s)\<rparr>)"
    by (auto split: if_splits)
  from timer_removed[OF t] assms(1)
  have "live s = 0 \<and> length (filter (\<lambda>p. fst p \<noteq> t) (pending s)) = 0"
    unfolding manager_inv_def by linarith
  then have "live s = 0" "filter (\<lambda>p. fst p \<noteq> t) (pending s) = []"
    by simp_all
  then show ?thesis using assms(1) unfolding s'
    by (intro inv_connectWebSocket) (simp_all add: live_def manager_inv_def)
next
  case HeartbeatTick
  then show ?thesis using assms
    by (auto simp: manager_inv_def heartbeat_def live_def split: if_splits option.splits)
next
  case Unmounted
  define ps where "ps = filter (\<lambda>p. Some (fst p) \<noteq> reconnectTimeout s) (pending s)"
  have "length ps \<le> length (pending s)"
    by (simp add: ps_def)
  with assms(1) have "live s + length ps \<le> 1"
    unfolding manager_inv_def by linarith
  then show ?thesis using Unmounted assms
    by (auto simp: manager_inv_def cleanup_def live_def Let_def openCount_ws_close
        ps_def[symmetric] split: option.splits)
qed

lemma inv_run:
  "run sel evs s = Some s' \<Longrightarrow> manager_inv s \<Longrightarrow> manager_inv s'"
proof (induction evs arbitrary: s)
  case Nil
  then show ?case by simp
next
  case (Cons e evs)
  then show ?case by (auto split: option.splits dest: inv_fire)
qed

lemma inv_mount: "manager_inv (mount outcome now)"
proof -
  have "manager_inv (connectWebSocket outcome (init_state now))"
    by (intro inv_connectWebSocket) (simp_all add: init_state_def live_def)
  then show ?thesis
    by (simp add: mount_def fetchEvents_begin_def manager_inv_def live_def)
qed

lemma opened_needs_live:
  "fire sel (Opened k) s = Some s' \<Longrightarrow> 0 < live s \<and> pending s' = pending s"
proof -
  assume f: "fire sel (Opened k) s = Some s'"
  then have k: "k < length (socks s)" "socks s ! k \<noteq> CLOSED"
    by (auto split: if_splits)
  from openCount_close[OF k] have "0 < live s" by (simp add: live_def)
  moreover from f have "pending s' = pending s"
    by (auto simp: ws_onopen_def Let_def split: if_splits)
  ultimately show ?thesis by simp
qed

lemma opened_resets:
  "fire sel (Opened k) s = Some s' \<Longrightarrow> reconnectAttempts s' = 0 \<and> \<not> isConnecting s'"
  by (auto simp: ws_onopen_def Let_def split: if_splits)

text \<open>\<^verbatim>\<open>onopen\<close> itself calls no \<^verbatim>\<open>clearTimeout\<close>: it leaves the timers as they are.\<close>

lemma onopen_keeps_pending:
  "pending (ws_onopen k s) = pending s \<and> reconnectTimeout (ws_onopen k s) = reconnectTimeout s"
  by (simp add: ws_onopen_def Let_def)

lemma exhausted_fire:
  assumes "manager_inv s" "reconnectAttempts s = maxReconnectAttempts" "fire sel e s = Some s'"
  shows "reconnectAttempts s' = maxReconnectAttempts \<and> nextTimerId s' = nextTimerId s \<and>
         length (pending s') \<le> length (pending s)"
proof (cases e)
  case (Opened k)
  with assms(3) opened_needs_live[of sel k s s'] have "0 < live s" by simp
  with assms(1,2) show ?thesis by (simp add: manager_inv_def)
next
  case (Errored k)
  then show ?thesis using assms by (auto simp: ws_onerror_def split: if_splits)
next
  case (Closed k)
  then show ?thesis using assms by (auto simp: ws_onclose_def Let_def split: if_splits)
next
  case (Message k parsed)
  with assms have "s' = ws_onmessage sel parsed s" by (auto split: if_splits)
  then show ?thesis using assms(2)
    by (auto simp: ws_onmessage_def fetchEvents_begin_def split: option.splits sum.splits)
next
  case (TimerFired t outcome)
  then show ?thesis using assms by (auto simp: connectWebSocket_def split: if_splits)
next
  case HeartbeatTick
  then show ?thesis using assms by (auto simp: heartbeat_def split: if_splits option.splits)
next
  case Unmounted
  then show ?thesis using assms by (auto simp: cleanup_def Let_def split: option.splits)
qed

lemma exhausted_run:
  "run sel evs s = Some s' \<Longrightarrow> manager_inv s \<Longrightarrow> reconnectAttempts s = maxReconnectAttempts \<Longrightarrow>
   reconnectAttempts s' = maxReconnectAttempts \<and> nextTimerId s' = nextTimerId s \<and>
   length (pending s') \<le> length (pending s)"
proof (induction evs arbitrary: s)
  case Nil
  then show ?case by simp
next
  case (Cons e evs)
  from Cons.prems(1) obtain s1 where f: "fire sel e s = Some s1" and r: "run sel evs s1 = Some s'"
    by (auto split: option.splits)
  from exhausted_fire[OF Cons.prems(2,3) f] inv_fire[OF Cons.prems(2) f] Cons.IH[OF r]
  show ?case by auto
qed

lemma exhausted_connect_noop:
  "reconnectAttempts s \<ge> maxReconnectAttempts \<Longrightarrow> connectWebSocket outcome s = s"
  by (simp add: connectWebSocket_def)

lemma inSelectedRange_iff:
  "inSelectedRange cal date dateRange ev \<longleftrightarrow>
     (\<exists>t. Date_parse cal (start_time ev) = Some t \<and> falls_within cal date dateRange t)"
  by (cases dateRange)
     (auto simp: inSelectedRange_def falls_within_def isWithinInterval_def split: option.splits)

text \<open>Each field of the status built from a payload: the payload's when that is truthy,
  whatever its type, the default otherwise.\<close>

lemma defaulted_status_fields:
  "success (defaulted_status p)
     = (if truthy (opt_member p ''success'') then opt_member p ''success'' else JBool False) \<and>
   new_events (defaulted_status p)
     = (if truthy (opt_member p ''new_events'') then opt_member p ''new_events'' else JNum 0) \<and>
   updated_events (defaulted_status p)
     = (if truthy (opt_member p ''updated_events'') then opt_member p ''updated_events''
        else JNum 0) \<and>
   deleted_events (defaulted_status p)
     = (if truthy (opt_member p ''deleted_events'') then opt_member p ''deleted_events''
        else JNum 0) \<and>
   errors (defaulted_status p)
     = (if truthy (opt_member p ''errors'') then opt_member p ''errors'' else JArr [])"
  by (simp add: defaulted_status_def js_or_def)

text \<open>A frame that does not parse, or parses to \<^verbatim>\<open>null\<close>, is dropped.\<close>

lemma malformed_frame_dropped:
  "ws_onmessage sel None s = s \<and> ws_onmessage sel (Some JNull) s = s"
  by (simp add: ws_onmessage_def)

text \<open>The earlier copy of the page stores the payload as it comes, and keeps the cached
  events when a fetch fails.\<close>

lemma earlier_copy_differs:
  "earlier_sync_complete_status (JObj [(''type'', JStr ''sync_complete''), (''stats'', JObj [])])
     = Inr (JObj []) \<and>
   events (earlier_fetchEvents_settle (Inl err) s) = events s"
  by (simp add: earlier_sync_complete_status_def earlier_fetchEvents_settle_def)

text \<open>A deletion that the API reports as failed keeps the cache of the moment and sets
  the error; a deletion issues no other request.\<close>

lemma delete_failure_keeps_cache:
  "\<not> response_success response \<Longrightarrow>
   events (handleDeleteEvent_settle captured eventId (Inr response) s1) = events s1 \<and>
   error (handleDeleteEvent_settle captured eventId (Inr response) s1) \<noteq> None \<and>
   calls (handleDeleteEvent_settle captured eventId (Inr response) s1) = calls s1 \<and>
   calls (handleDeleteEvent_begin eventId s) = calls s @ [DeleteEvent eventId]"
  by (simp add: handleDeleteEvent_settle_def handleDeleteEvent_begin_def)

text \<open>The continuation of a deletion filters the list its closure captured, whatever
  the cache holds when the answer arrives.\<close>

lemma delete_filters_captured_list:
  "response_success response \<Longrightarrow>
   events (handleDeleteEvent_settle captured eventId (Inr response) s1)
     = filter (\<lambda>e. id_event e \<noteq> eventId) captured"
  by (simp add: handleDeleteEvent_settle_def)

section \<open>Manual sync (C1)\<close>

text \<open>
  C1 says that every \<^verbatim>\<open>handleSync\<close> sets the syncing flag at its start and, when the
  call answers or throws, updates the SyncStatus and clears the flag. The code does so
  when the call throws. When the call answers, \<^verbatim>\<open>handleSync\<close> updates the SyncStatus
  and leaves the flag set: it stays set after one sync and after two in a row.
\<close>

theorem handleSync_success_leaves_syncing:
  "syncing (handleSync_begin s) \<and>
   syncing (handleSync_settle (Inr data) (handleSync_begin s)) \<and>
   syncStatus (handleSync_settle (Inr data) (handleSync_begin s)) = defaulted_status data \<and>
   \<not> syncing (handleSync_settle (Inl err) (handleSync_begin s)) \<and>
   syncing (handleSync_settle (Inr data') (handleSync_begin
              (handleSync_settle (Inr data) (handleSync_begin s))))"
  by (simp add: handleSync_settle_def handleSync_begin_def)

section \<open>Reconnect delays (C2)\<close>

text \<open>
  C2 as stated, with the delay \<open>min (1000 * 2 ^ n) 10000\<close> taken from the counter \<open>n\<close>
  before the increment, fails on the first close after a fresh connection: the socket of
  the mount opens, the counter is 0, the socket closes, and the timer waits 2000 ms, not
  1000 ms.
\<close>

theorem reconnect_delay_counterexample:
  "map_option (\<lambda>s. (reconnectAttempts s, pending s))
     (run (Week, 0) [Opened 0] (mount Ctor_returns 0)) = Some (0, []) \<and>
   map_option (\<lambda>s. (reconnectAttempts s, pending s))
     (run (Week, 0) [Opened 0, Closed 0] (mount Ctor_returns 0)) = Some (1, [(0, 2000)]) \<and>
   (2000 :: nat) \<noteq> min (1000 * 2 ^ 0) 10000"
  by (simp add: eval_defs)

text \<open>
  C2, amended: while the counter \<open>n\<close> is below 5, a close event, and a constructor that
  throws in a call of \<^verbatim>\<open>connectWebSocket\<close> that passes its guard, first increment the
  counter to \<open>n + 1\<close> and then set one timer with the delay \<open>min (1000 * 2 ^ (n + 1)) 10000\<close>
  (so 2000 ms after a fresh connection); an error event leaves the counter, an open
  event resets it to 0.
\<close>

theorem reconnect_delay_after_increment:
  assumes "reconnectAttempts s = n" and "n < maxReconnectAttempts"
  shows "reconnectAttempts (ws_onclose s) = n + 1 \<and>
         pending (ws_onclose s) = pending s @ [(nextTimerId s, min (1000 * 2 ^ (n + 1)) 10000)] \<and>
         (\<not> isConnecting s \<longrightarrow>
            reconnectAttempts (connectWebSocket Ctor_throws s) = n + 1 \<and>
            pending (connectWebSocket Ctor_throws s)
              = pending s @ [(nextTimerId s, min (1000 * 2 ^ (n + 1)) 10000)]) \<and>
         reconnectAttempts (ws_onerror s) = n \<and>
         reconnectAttempts (ws_onopen k s) = 0 \<and>
         (n = 0 \<longrightarrow> pending (ws_onclose s) = pending s @ [(nextTimerId s, 2000)])"
  using assms
  by (auto simp: ws_onclose_def connectWebSocket_def planReconnect_def ws_onerror_def
      ws_onopen_def Let_def split: option.splits)

text \<open>Four closes in a row from the first state wait 2000, 4000, 8000 and 10000 ms.\<close>

theorem reconnect_delay_after_increment_witness:
  "reconnectAttempts (ws_onclose (init_state 0)) = 1 \<and>
   map snd (pending (ws_onclose (init_state 0))) = [2000] \<and>
   map snd (pending (ws_onclose (ws_onclose (init_state 0)))) = [2000, 4000] \<and>
   map snd (pending (ws_onclose (ws_onclose (ws_onclose (ws_onclose (init_state 0))))))
     = [2000, 4000, 8000, 10000]"
proof -
  have a: "reconnectAttempts (ws_onclose s) = Suc n \<and>
           map snd (pending (ws_onclose s)) = map snd (pending s) @ [min (1000 * 2 ^ Suc n) 10000]"
    if "reconnectAttempts s = n" "n < maxReconnectAttempts" for s n
    using reconnect_delay_after_increment[OF that] by simp
  have m: "maxReconnectAttempts = 5" by (simp add: maxReconnectAttempts_def)
  have s0: "reconnectAttempts (init_state 0) = 0" "pending (init_state 0) = []"
    by (simp_all add: init_state_def)
  note s1 = a[OF s0(1), unfolded m s0, simplified]
  note s2 = a[of "ws_onclose (init_state 0)" 1, unfolded m, simplified s1, simplified]
  note s3 = a[of "ws_onclose (ws_onclose (init_state 0))" 2, unfolded m, simplified s2, simplified]
  note s4 = a[of "ws_onclose (ws_onclose (ws_onclose (init_state 0)))" 3, unfolded m,
      simplified s3, simplified]
  show ?thesis using s1 s2 s3 s4 by simp
qed

section \<open>A successful open (C3)\<close>

text \<open>
  C3: in every state that browser events reach from the mount, at most one reconnect
  timer is pending, and none is pending while a socket has not closed. Whenever a socket
  opens in such a state, the counter is reset to 0, \<^verbatim>\<open>isConnecting\<close> is cleared and no
  reconnect timer is pending afterwards, so that no timer can fire after the open.
  (Nothing is left for \<^verbatim>\<open>onopen\<close> to cancel: a timer is set only when the one socket
  has closed or could not be created, and the next socket is created only when that
  timer fires.)
\<close>

theorem open_resets_counter_no_timer_pending:
  assumes "run sel evs (mount outcome now) = Some s"
  shows "length (pending s) \<le> 1 \<and>
         (0 < live s \<longrightarrow> pending s = []) \<and>
         (\<forall>k s'. fire sel (Opened k) s = Some s' \<longrightarrow>
            reconnectAttempts s' = 0 \<and> \<not> isConnecting s' \<and> pending s' = [] \<and>
            (\<forall>t outcome'. fire sel (TimerFired t outcome') s' = None))"
proof -
  from inv_run[OF assms inv_mount] have i: "live s + length (pending s) \<le> 1"
    by (simp add: manager_inv_def)
  then have a: "length (pending s) \<le> 1" by simp
  from i have "0 < live s \<longrightarrow> length (pending s) = 0" by linarith
  then have b: "0 < live s \<longrightarrow> pending s = []" by simp
  have c: "reconnectAttempts s' = 0 \<and> \<not> isConnecting s' \<and> pending s' = [] \<and>
           (\<forall>t outcome'. fire sel (TimerFired t outcome') s' = None)"
    if f: "fire sel (Opened k) s = Some s'" for k s'
  proof -
    from opened_needs_live[OF f] b have p: "pending s' = []" by simp
    with opened_resets[OF f] show ?thesis by simp
  qed
  from a b c show ?thesis by blast
qed

text \<open>The socket of the mount fails and closes, the timer fires and the new socket opens:
  the counter is back at 0 and no timer is pending.\<close>

theorem open_resets_counter_no_timer_pending_witness:
  "map_option (\<lambda>s. (reconnectAttempts s, pending s, socks s))
     (run (Week, 0) [Errored 0, Closed 0] (mount Ctor_returns 0))
     = Some (1, [(0, 2000)], [CLOSED]) \<and>
   map_option (\<lambda>s. (reconnectAttempts s, pending s, socks s))
     (run (Week, 0) reconnecting_events (mount Ctor_returns 0))
     = Some (1, [], [CLOSED, CONNECTING]) \<and>
   map_option (\<lambda>s. (reconnectAttempts s, pending s, socks s))
     (run (Week, 0) (reconnecting_events @ [Opened 1]) (mount Ctor_returns 0))
     = Some (0, [], [CLOSED, OPEN])"
proof -
  have e: "map_option (\<lambda>s. (reconnectAttempts s, pending s, socks s))
     (run (Week, 0) [Errored 0, Closed 0] (mount Ctor_returns 0))
     = Some (1, [(0, 2000)], [CLOSED])"
    by (simp add: eval_defs)
  have "\<exists>s'. run (Week, 0) reconnecting_events (mount Ctor_returns 0) = Some s' \<and>
          reconnectAttempts s' = 1 \<and> socks s' = [CLOSED, CONNECTING] \<and>
          (\<exists>s''. fire (Week, 0) (Opened 1) s' = Some s'' \<and> socks s'' = [CLOSED, OPEN])"
    by (simp add: reconnecting_events_def eval_defs)
  then obtain s' s'' where r: "run (Week, 0) reconnecting_events (mount Ctor_returns 0) = Some s'"
    and a: "reconnectAttempts s' = 1" "socks s' = [CLOSED, CONNECTING]"
    and f: "fire (Week, 0) (Opened 1) s' = Some s''"
    and b: "socks s'' = [CLOSED, OPEN]"
    by blast
  have l: "0 < live s'" using a by (simp add: live_def)
  from open_resets_counter_no_timer_pending[OF r] l f
  have "pending s' = [] \<and> reconnectAttempts s'' = 0 \<and> pending s'' = []" by blast
  with e r a f b show ?thesis by (simp add: run_append)
qed

section \<open>The \<^verbatim>\<open>sync_complete\<close> notification (C4)\<close>

text \<open>
  C4: for every frame of type \<^verbatim>\<open>sync_complete\<close>, the handler builds the SyncStatus from
  the payload \<^verbatim>\<open>data.data\<close> by defaulting: an absent count is 0, an absent success flag is
  \<^verbatim>\<open>false\<close>, an absent error list is empty; the payload \<^verbatim>\<open>{}\<close>, and an absent payload,
  give exactly the default status; no field of the result is \<^verbatim>\<open>undefined\<close> or \<^verbatim>\<open>null\<close>;
  and the result replaces the held SyncStatus, whatever it was.
\<close>

theorem sync_complete_defaults:
  assumes "member data ''type'' = Inr (JStr ''sync_complete'')"
  shows "let payload = opt_member data ''data'';
             st = syncStatus (ws_onmessage sel (Some data) s)
         in (opt_member payload ''success'' = JUndefined \<longrightarrow> success st = JBool False) \<and>
            (opt_member payload ''new_events'' = JUndefined \<longrightarrow> new_events st = JNum 0) \<and>
            (opt_member payload ''updated_events'' = JUndefined \<longrightarrow> updated_events st = JNum 0) \<and>
            (opt_member payload ''deleted_events'' = JUndefined \<longrightarrow> deleted_events st = JNum 0) \<and>
            (opt_member payload ''errors'' = JUndefined \<longrightarrow> errors st = JArr []) \<and>
            (payload = JObj [] \<longrightarrow> st = default_status) \<and>
            (payload = JUndefined \<longrightarrow> st = default_status) \<and>
            success st \<notin> {JUndefined, JNull} \<and>
            new_events st \<notin> {JUndefined, JNull} \<and>
            updated_events st \<notin> {JUndefined, JNull} \<and>
            deleted_events st \<notin> {JUndefined, JNull} \<and>
            errors st \<notin> {JUndefined, JNull} \<and>
            st = syncStatus (ws_onmessage sel (Some data) s0)"
proof -
  have st: "syncStatus (ws_onmessage sel (Some data) t) = defaulted_status (opt_member data ''data'')"
    for t
    using assms by (simp add: ws_onmessage_def fetchEvents_begin_def)
  show ?thesis
    unfolding Let_def st
    using js_or_defined[of "JBool False"] js_or_defined[of "JNum 0"] js_or_defined[of "JArr []"]
    by (simp add: defaulted_status_def default_status_def js_or_def)
qed

text \<open>The payload \<^verbatim>\<open>{}\<close>, arriving while the status of an earlier sync is held.\<close>

theorem sync_complete_defaults_witness:
  "member empty_sync_complete ''type'' = Inr (JStr ''sync_complete'') \<and>
   syncStatus (ws_onmessage (Week, 0) (Some empty_sync_complete)
       ((init_state 0)\<lparr>syncStatus := defaulted_status (JObj [(''new_events'', JNum 3)])\<rparr>))
     = \<lparr>success = JBool False, new_events = JNum 0, updated_events = JNum 0,
        deleted_events = JNum 0, errors = JArr []\<rparr>"
proof -
  have h: "member empty_sync_complete ''type'' = Inr (JStr ''sync_complete'')"
    by (simp add: empty_sync_complete_def)
  have p: "opt_member empty_sync_complete ''data'' = JObj []"
    by (simp add: empty_sync_complete_def)
  show ?thesis
    using h p sync_complete_defaults[OF h, of "(Week, 0)"
        "(init_state 0)\<lparr>syncStatus := defaulted_status (JObj [(''new_events'', JNum 3)])\<rparr>"
        "init_state 0"]
    by (simp add: Let_def default_status_def)
qed

section \<open>A failed fetch (C5)\<close>

text \<open>
  C5: when the API call of \<^verbatim>\<open>fetchEvents\<close> fails, in whatever state the failure arrives,
  the cached events become the empty list and the error message is set (it is not
  \<^verbatim>\<open>null\<close>): the message of the error, or a fixed text; no events stay beside the error.
\<close>

theorem fetch_failure_clears:
  "events (fetchEvents_settle (Inl apiError) s) = [] \<and>
   error (fetchEvents_settle (Inl apiError) s)
     = Some (message_or apiError ''Failed to fetch events from server'') \<and>
   error (fetchEvents_settle (Inl apiError) s) \<noteq> None \<and>
   \<not> loading (fetchEvents_settle (Inl apiError) s)"
  by (simp add: fetchEvents_settle_def)

section \<open>Overlapping fetches (C6)\<close>

text \<open>
  C6 as stated fails: Monday, 5 January 1970 is selected (noon, 388800000), then
  Tuesday, 6 January (475200000) before the first fetch has settled; the second fetch
  settles, then the first. The selection is the Tuesday and the events shown are those
  of the first fetch.
\<close>

theorem fetch_race_counterexample:
  "events (fetchEvents_settle (Inr [monday_event])
            (fetchEvents_settle (Inr [wednesday_event])
               (onDateSelect 475200000 (onDateSelect 388800000 ((init_state 0)\<lparr>selectedDateRange := Day\<rparr>)))))
     \<noteq> [wednesday_event] \<and>
   selectedDate (fetchEvents_settle (Inr [monday_event])
            (fetchEvents_settle (Inr [wednesday_event])
               (onDateSelect 475200000 (onDateSelect 388800000 ((init_state 0)\<lparr>selectedDateRange := Day\<rparr>)))))
     = 475200000 \<and>
   calls (onDateSelect 475200000 (onDateSelect 388800000 ((init_state 0)\<lparr>selectedDateRange := Day\<rparr>)))
     = [GetEventsForRange 388800000, GetEventsForRange 475200000]"
  by (simp add: fetchEvents_settle_def onDateSelect_def fetchEvents_begin_def init_state_def
      fetchEvents_request_def monday_event_def wednesday_event_def)

text \<open>
  C6, amended: when fetch A is issued, then fetch B, and A settles after B, the events
  shown afterwards are the result of A, the fetch that settled last (the empty list when
  A failed): no result is discarded, whatever selection its fetch was issued for.
\<close>

theorem fetch_last_settled_wins:
  "events (fetchEvents_settle (Inr dataA)
            (fetchEvents_settle rB (fetchEvents_begin selB (fetchEvents_begin selA s)))) = dataA \<and>
   events (fetchEvents_settle (Inl errA)
            (fetchEvents_settle rB (fetchEvents_begin selB (fetchEvents_begin selA s)))) = []"
  by (simp add: fetchEvents_settle_def)

section \<open>The exhausted retry budget (C7)\<close>

text \<open>
  C7: in a state that browser events reach from the mount and in which the counter is
  at its maximum 5, whatever events follow, the counter stays at 5, no timer is set
  (the next handle stays the same and timers only go away), no socket is left and
  \<^verbatim>\<open>wsRef\<close> is empty; \<^verbatim>\<open>connectWebSocket\<close> returns at its guard, and a close or an error
  would only clear \<^verbatim>\<open>isConnecting\<close>.
\<close>

theorem exhausted_budget_is_final:
  assumes "run sel evs (mount outcome now) = Some s"
    and "reconnectAttempts s = maxReconnectAttempts"
    and "run sel evs' s = Some s'"
  shows "reconnectAttempts s' = maxReconnectAttempts \<and>
         nextTimerId s' = nextTimerId s \<and>
         length (pending s') \<le> length (pending s) \<and>
         live s' = 0 \<and> wsRef s' = None \<and>
         connectWebSocket outcome' s' = s' \<and>
         ws_onclose s' = s'\<lparr>isConnecting := False\<rparr> \<and>
         ws_onerror s' = s'\<lparr>isConnecting := False\<rparr>"
proof -
  have i: "manager_inv s" using inv_run[OF assms(1) inv_mount] .
  have i': "manager_inv s'" using inv_run[OF assms(3) i] .
  from exhausted_run[OF assms(3) i assms(2)] i' show ?thesis
    by (simp add: manager_inv_def exhausted_connect_noop ws_onclose_def ws_onerror_def Let_def)
qed

text \<open>After the fifth scheduled reconnect the counter is 5 and the timer of 10000 ms is
  pending; when it fires nothing is connected and nothing is scheduled.\<close>

theorem exhausted_budget_is_final_witness:
  "map_option (\<lambda>s. (reconnectAttempts s, pending s, nextTimerId s))
     (run (Week, 0) exhausting_events (mount Ctor_returns 0))
     = Some (maxReconnectAttempts, [(4, 10000)], 5) \<and>
   map_option (\<lambda>s. (reconnectAttempts s, pending s, nextTimerId s, live s, wsRef s))
     (run (Week, 0) (exhausting_events @ [TimerFired 4 Ctor_returns, HeartbeatTick])
        (mount Ctor_returns 0))
     = Some (maxReconnectAttempts, [], 5, 0, None)"
proof -
  have "\<exists>s. run (Week, 0) exhausting_events (mount Ctor_returns 0) = Some s \<and>
          reconnectAttempts s = 5 \<and> pending s = [(4, 10000)] \<and> nextTimerId s = 5 \<and>
          (\<exists>s'. run (Week, 0) [TimerFired 4 Ctor_returns, HeartbeatTick] s = Some s' \<and>
             pending s' = [])"
    by (simp add: exhausting_events_def eval_defs)
  then obtain s s' where r: "run (Week, 0) exhausting_events (mount Ctor_returns 0) = Some s"
    and a: "reconnectAttempts s = 5" "pending s = [(4, 10000)]" "nextTimerId s = 5"
    and r': "run (Week, 0) [TimerFired 4 Ctor_returns, HeartbeatTick] s = Some s'"
    and b: "pending s' = []"
    by blast
  have m: "maxReconnectAttempts = 5" by (simp add: maxReconnectAttempts_def)
  from exhausted_budget_is_final[OF r _ r'] a m
  have "reconnectAttempts s' = maxReconnectAttempts \<and> nextTimerId s' = 5 \<and>
        live s' = 0 \<and> wsRef s' = None"
    by simp
  with r a r' b m show ?thesis by (simp add: run_append)
qed

section \<open>Frames of other types (C8)\<close>

text \<open>
  C8: a frame whose type is none of \<^verbatim>\<open>connection_established\<close>, \<^verbatim>\<open>sync_complete\<close>,
  \<^verbatim>\<open>pong\<close> and \<^verbatim>\<open>ping\<close> leaves the whole state as it is: the connection, the
  SyncStatus, the syncing flag and the cached events.
\<close>

theorem unknown_type_ignored:
  assumes "member data ''type'' = Inr ty"
    and "ty \<notin> {JStr ''connection_established'', JStr ''sync_complete'', JStr ''pong'',
                JStr ''ping''}"
  shows "ws_onmessage sel (Some data) s = s"
  using assms by (simp add: ws_onmessage_def)

theorem unknown_type_ignored_witness:
  "member event_created_frame ''type'' = Inr (JStr ''event_created'') \<and>
   JStr ''event_created''
     \<notin> {JStr ''connection_established'', JStr ''sync_complete'', JStr ''pong'', JStr ''ping''} \<and>
   ws_onmessage (Week, 0) (Some event_created_frame) (mount Ctor_returns 0)
     = mount Ctor_returns 0"
proof -
  have h1: "member event_created_frame ''type'' = Inr (JStr ''event_created'')"
    by (simp add: event_created_frame_def)
  have h2: "JStr ''event_created''
     \<notin> {JStr ''connection_established'', JStr ''sync_complete'', JStr ''pong'', JStr ''ping''}"
    by simp
  show ?thesis
    by (rule conjI[OF h1 conjI[OF h2 unknown_type_ignored[OF h1 h2]]])
qed

section \<open>Deleting an event (C9)\<close>

text \<open>
  C9 says that a deletion the API reports as done removes exactly the events with the
  given id from the cache and leaves every other cached event. The code filters the list
  of the render whose handler was called and stores the result when the answer arrives.
  Two schedules from a render that shows the events \<open>a1\<close> and \<open>b2\<close>:
  \<^item> a fetch is in flight, \<open>a1\<close> is deleted, the fetch settles with \<open>a1\<close>, \<open>b2\<close> and
    \<open>c3\<close>, then the deletion is answered: the cache held \<open>c3\<close> and holds \<open>b2\<close> alone;
  \<^item> \<open>a1\<close> is deleted, then \<open>b2\<close>, before either is answered (the list of the render
    is still the same), and both are answered: the cache holds \<open>a1\<close>, which was deleted.
\<close>

theorem delete_overwrites_newer_cache:
  "events (fetchEvents_settle (Inr [monday_event, wednesday_event, later_event])
            (handleDeleteEvent_begin ''a1'' (fetchEvents_begin (Week, 0) two_events_state)))
     = [monday_event, wednesday_event, later_event] \<and>
   events (handleDeleteEvent_settle (events two_events_state) ''a1'' (Inr deleted_ok)
            (fetchEvents_settle (Inr [monday_event, wednesday_event, later_event])
               (handleDeleteEvent_begin ''a1'' (fetchEvents_begin (Week, 0) two_events_state))))
     = [wednesday_event] \<and>
   events (handleDeleteEvent_begin ''a1'' two_events_state) = events two_events_state \<and>
   events (handleDeleteEvent_settle (events two_events_state) ''a1'' (Inr deleted_ok)
            (handleDeleteEvent_begin ''b2'' (handleDeleteEvent_begin ''a1'' two_events_state)))
     = [wednesday_event] \<and>
   events (handleDeleteEvent_settle (events two_events_state) ''b2'' (Inr deleted_ok)
            (handleDeleteEvent_settle (events two_events_state) ''a1'' (Inr deleted_ok)
               (handleDeleteEvent_begin ''b2'' (handleDeleteEvent_begin ''a1'' two_events_state))))
     = [monday_event]"
  by (simp add: handleDeleteEvent_settle_def handleDeleteEvent_begin_def fetchEvents_settle_def
      fetchEvents_begin_def two_events_state_def deleted_ok_def init_state_def
      monday_event_def wednesday_event_def later_event_def)

section \<open>The event list (C10)\<close>

text \<open>
  C10: the list shown holds exactly the given events whose start time falls within
  the selected range, each as often as it is given, in nondecreasing order of start
  time; an event outside the range, or whose start time is no date, is not shown.
\<close>

theorem event_list_shows_range_sorted:
  "let shown = filteredEvents cal evs date dateRange
   in mset shown =
        {#ev \<in># mset evs. \<exists>t. Date_parse cal (start_time ev) = Some t \<and>
                                falls_within cal date dateRange t#} \<and>
      sorted (map (getTime cal) shown) \<and>
      (\<forall>ev \<in> set shown. Date_parse cal (start_time ev) = Some (getTime cal ev))"
proof -
  have "\<And>ev. inSelectedRange cal date dateRange ev \<Longrightarrow>
          Date_parse cal (start_time ev) = Some (getTime cal ev)"
    by (auto simp: inSelectedRange_def getTime_def split: option.splits)
  then show ?thesis
    by (auto simp: filteredEvents_def Let_def inSelectedRange_iff[symmetric])
qed

text \<open>The week of Tuesday, 6 January 1970, noon.\<close>

theorem event_list_shows_range_sorted_witness:
  "filteredEvents january_1970_utc
     [wednesday_event, undated_event, later_event, monday_event] 475200000 Week
     = [monday_event, wednesday_event] \<and>
   sorted (map (getTime january_1970_utc)
     (filteredEvents january_1970_utc
        [wednesday_event, undated_event, later_event, monday_event] 475200000 Week))"
proof -
  have e: "filteredEvents january_1970_utc
     [wednesday_event, undated_event, later_event, monday_event] 475200000 Week
     = [monday_event, wednesday_event]"
    by (simp add: filteredEvents_def inSelectedRange_def isWithinInterval_def getTime_def
        january_1970_utc_def monday_event_def wednesday_event_def later_event_def
        undated_event_def)
  from event_list_shows_range_sorted[of january_1970_utc
      "[wednesday_event, undated_event, later_event, monday_event]" 475200000 Week]
  have "sorted (map (getTime january_1970_utc)
     (filteredEvents january_1970_utc
        [wednesday_event, undated_event, later_event, monday_event] 475200000 Week))"
    by (simp add: Let_def)
  with e show ?thesis by simp
qed

end
